theory Spec2Isabelle
  imports Complex_Main "HOL-Library.Word"
begin

section \<open>piewin: the pie-menu chooser of \<^verbatim>\<open>src/main.c\<close>\<close>

text \<open>
  The program reads labels from standard input, paints one angular wedge per label and
  prints the label of the wedge under the pointer when the left button is released.
  This theory embeds the geometry helpers and the event loop of \<^verbatim>\<open>main\<close>.

  Conventions of the embedding.
  \<^item> A finite C \<^verbatim>\<open>double\<close> is the \<^typ>\<open>real\<close> it denotes, and \<^verbatim>\<open>INFINITY\<close> is
    \<^term>\<open>None\<close> of \<^typ>\<open>real option\<close>. Comparisons, \<^verbatim>\<open>fabs\<close>, \<^verbatim>\<open>floor\<close>,
    \<^verbatim>\<open>fmin\<close>, \<^verbatim>\<open>fmax\<close> and the conversion of an \<^verbatim>\<open>int\<close> are exact in doubles.
  \<^item> In \<^verbatim>\<open>sector_index_from_point\<close> and \<^verbatim>\<open>fit_font_size\<close> the arithmetic is the
    arithmetic of the reals and \<^verbatim>\<open>M_PI\<close> is \<^term>\<open>pi\<close>: rounding is not modelled
    there. In \<^verbatim>\<open>distance_to_rect_edge\<close> the arithmetic is a parameter, so that
    what is proved of it holds however the operations round.
  \<^item> A C \<^verbatim>\<open>int\<close> that holds a coordinate, a size or an index is an \<^typ>\<open>int\<close>; the
    fixed-width fields of the X11 events are words, read with \<^term>\<open>sint\<close> or
    \<^term>\<open>uint\<close> where the C code promotes them.
  \<^item> The calls into Cairo and XCB that paint are recorded, not modelled: every call of
    \<^verbatim>\<open>draw\<close> appends the frame's parameters to a log.
\<close>

subsection \<open>Geometry\<close>

text \<open>
  The four-quadrant arctangent of the C library on real arguments. The difference of
  two equal doubles is \<open>+0.0\<close>, and \<^verbatim>\<open>atan2(+0.0, x)\<close> is \<open>+0\<close> for \<open>x \<ge> +0\<close> and
  \<open>\<pi>\<close> for negative \<open>x\<close>.
\<close>

definition atan2 :: "real \<Rightarrow> real \<Rightarrow> real" where
  "atan2 y x =
     (if 0 < x then arctan (y / x)
      else if x < 0 then (if 0 \<le> y then arctan (y / x) + pi else arctan (y / x) - pi)
      else if 0 < y then pi / 2
      else if y < 0 then - (pi / 2)
      else 0)"

text \<open>
  \<^verbatim>\<open>sector_index_from_point\<close> (lines 165-176). The cast \<^verbatim>\<open>(int)floor(ang / step)\<close>
  keeps the value: the quotient lies in \<open>[0, n)\<close>. The doubles of the code round, so at
  a wedge boundary the code may floor to the wedge next to the one given here; the two
  clamping statements bound the index whatever the quotient is.
\<close>

definition sector_index_from_point :: "int \<Rightarrow> int \<Rightarrow> int \<Rightarrow> int \<Rightarrow> int \<Rightarrow> int" where
  "sector_index_from_point n W H x y =
     (if n \<le> 0 then - 1
      else
        let cx = real_of_int W * 0.5;
            cy = real_of_int H * 0.5;
            ang0 = atan2 (real_of_int y - cy) (real_of_int x - cx);
            ang = (if ang0 < 0 then ang0 + 2 * pi else ang0);
            step = (2 * pi) / real_of_int n;
            idx0 = \<lfloor>ang / step\<rfloor>;
            idx1 = (if idx0 < 0 then 0 else idx0);
            idx = (if n \<le> idx1 then n - 1 else idx1)
        in idx)"

text \<open>
  \<^verbatim>\<open>fmin\<close> on a value that may still be \<^verbatim>\<open>INFINITY\<close>.
\<close>

fun fmin_inf :: "real option \<Rightarrow> real option \<Rightarrow> real option" where
  "fmin_inf None b = b"
| "fmin_inf (Some a) None = Some a"
| "fmin_inf (Some a) (Some b) = Some (min a b)"

text \<open>
  The double arithmetic that \<^verbatim>\<open>distance_to_rect_edge\<close> uses: the sum, difference,
  product and quotient of two doubles, the cosine and sine of the C library, and the
  double that the literal \<^verbatim>\<open>1e-9\<close> denotes. Nothing is assumed of them.
\<close>

record arith =
  fadd :: "real \<Rightarrow> real \<Rightarrow> real"
  fsub :: "real \<Rightarrow> real \<Rightarrow> real"
  fmul :: "real \<Rightarrow> real \<Rightarrow> real"
  fdiv :: "real \<Rightarrow> real \<Rightarrow> real"
  fcos :: "real \<Rightarrow> real"
  fsin :: "real \<Rightarrow> real"
  tiny :: real

text \<open>
  Arithmetic without rounding.
\<close>

definition exact_arith :: arith where
  "exact_arith =
     \<lparr>fadd = (+), fsub = (-), fmul = (*), fdiv = (/), fcos = cos, fsin = sin,
      tiny = 1 / 1000000000\<rparr>"


text \<open>
  \<^verbatim>\<open>fit_font_size\<close> (lines 178-195). The pair of calls \<^verbatim>\<open>cairo_set_font_size\<close>,
  \<^verbatim>\<open>cairo_text_extents\<close> for the fixed context and text is the parameter
  \<open>extents\<close>: from a font size to the measured width and height. The \<^verbatim>\<open>for\<close> loop
  over \<open>it\<close> is the recursion.
\<close>

function fit_font_size_loop ::
  "(real \<Rightarrow> real \<times> real) \<Rightarrow> real \<Rightarrow> real \<Rightarrow> nat \<Rightarrow> real \<Rightarrow> real \<Rightarrow> real" where
  "fit_font_size_loop extents maxw maxh it lo hi =
     (if it < 20 then
        let mid = (lo + hi) * 0.5;
            w = fst (extents mid);
            h = snd (extents mid)
        in if w \<le> maxw \<and> h \<le> maxh
           then fit_font_size_loop extents maxw maxh (it + 1) mid hi
           else fit_font_size_loop extents maxw maxh (it + 1) lo mid
      else lo)"
  by pat_completeness auto
termination
  by (relation "measure (\<lambda>(extents, maxw, maxh, it, lo, hi). 20 - it)") auto

declare fit_font_size_loop.simps [simp del]

definition fit_font_size :: "(real \<Rightarrow> real \<times> real) \<Rightarrow> real \<Rightarrow> real \<Rightarrow> real" where
  "fit_font_size extents maxw maxh =
     fit_font_size_loop extents maxw maxh 0 1 (max 1 (min maxw maxh))"

subsection \<open>The session: the locals of \<^verbatim>\<open>main\<close> and what it has written\<close>

text \<open>
  The X11 events the \<^verbatim>\<open>switch\<close> of the event loop tells apart (by
  \<^verbatim>\<open>response_type & ~0x80\<close>), each with the fields the code reads; every other event
  type is \<open>OtherEvent\<close>. \<open>event_x\<close> and \<open>event_y\<close> are \<^verbatim>\<open>int16_t\<close>, a button
  or key \<open>detail\<close> is \<^verbatim>\<open>uint8_t\<close>, the size of a configure event is
  \<^verbatim>\<open>uint16_t\<close>, atoms are \<^verbatim>\<open>uint32_t\<close>.
\<close>

datatype event =
    Expose
  | MotionNotify "16 word" "16 word"
  | ButtonPress "8 word" "16 word" "16 word"
  | ButtonRelease "8 word" "16 word" "16 word"
  | KeyPress "8 word"
  | ConfigureNotify "16 word" "16 word"
  | ClientMessage "32 word" "32 word"
  | OtherEvent

text \<open>
  The fields of \<^verbatim>\<open>App\<close> the loop reads (\<open>keysyms\<close> stands for
  \<^verbatim>\<open>xcb_key_symbols_get_keysym(app.keysyms, detail, 0)\<close>, a lookup in the server's
  keyboard mapping), the entries read from standard input, the locals \<open>hover_idx\<close>,
  \<open>pressed_idx\<close>, \<open>exit_code\<close>, \<open>running\<close> of \<^verbatim>\<open>main\<close>, the bytes written to
  standard output, and the log of frames: one \<open>(width, height, hover_idx)\<close> per call of
  \<^verbatim>\<open>draw\<close>.
\<close>

record session =
  app_width :: int
  app_height :: int
  WM_PROTOCOLS :: "32 word"
  WM_DELETE_WINDOW :: "32 word"
  keysyms :: "8 word \<Rightarrow> 32 word"
  entries :: "string list"
  hover_idx :: int
  pressed_idx :: int
  exit_code :: int
  running :: int
  stdout :: string
  frames :: "(int \<times> int \<times> int) list"

definition XK_Escape :: "32 word" where
  "XK_Escape = 0xff1b"

text \<open>
  \<^verbatim>\<open>(int)count\<close>: the conversion of the \<^verbatim>\<open>size_t\<close> number of entries to a 32-bit
  \<^verbatim>\<open>int\<close>: the low 32 bits read as two's complement, which keeps every count
  below \<open>2^31\<close>.
\<close>

definition int_of_size_t :: "nat \<Rightarrow> int" where
  "int_of_size_t c =
     (let u = int c mod 2 ^ 32 in if u < 2 ^ 31 then u else u - 2 ^ 32)"

definition wedge_count :: "session \<Rightarrow> int" where
  "wedge_count s = int_of_size_t (length (entries s))"

definition draw :: "session \<Rightarrow> int \<Rightarrow> session" where
  "draw s hover = s\<lparr>frames := frames s @ [(app_width s, app_height s, hover)]\<rparr>"

text \<open>
  The body of the \<^verbatim>\<open>switch\<close> (lines 526-617), one equation per \<^verbatim>\<open>case\<close>.
\<close>

fun handle_event :: "session \<Rightarrow> event \<Rightarrow> session" where
  "handle_event s Expose = draw s (hover_idx s)"
| "handle_event s (MotionNotify ex ey) =
     (let idx = sector_index_from_point (wedge_count s) (app_width s) (app_height s)
                  (sint ex) (sint ey)
      in if idx \<noteq> hover_idx s then draw (s\<lparr>hover_idx := idx\<rparr>) idx else s)"
| "handle_event s (ButtonPress detail ex ey) =
     (if detail = 1
      then s\<lparr>pressed_idx :=
               sector_index_from_point (wedge_count s) (app_width s) (app_height s)
                 (sint ex) (sint ey)\<rparr>
      else s)"
| "handle_event s (ButtonRelease detail ex ey) =
     (let s1 =
        (if detail = 1 then
           let idx = sector_index_from_point (wedge_count s) (app_width s) (app_height s)
                       (sint ex) (sint ey)
           in if 0 \<le> idx \<and> idx < wedge_count s
              then s\<lparr>stdout := stdout s @ entries s ! nat idx @ [CHR 0x0A],
                     exit_code := 0, running := 0\<rparr>
              else s
         else s)
      in s1\<lparr>pressed_idx := - 1\<rparr>)"
| "handle_event s (KeyPress detail) =
     (let sym = keysyms s detail
      in if sym = XK_Escape \<or> sym = 113 \<or> sym = 81
         then s\<lparr>exit_code := 1, running := 0\<rparr>
         else s)"
| "handle_event s (ConfigureNotify w h) =
     (if uint w \<noteq> app_width s \<or> uint h \<noteq> app_height s
      then draw (s\<lparr>app_width := uint w, app_height := uint h\<rparr>) (hover_idx s)
      else s)"
| "handle_event s (ClientMessage ty data0) =
     (if ty = WM_PROTOCOLS s \<and> data0 = WM_DELETE_WINDOW s
      then s\<lparr>exit_code := 1, running := 0\<rparr>
      else s)"
| "handle_event s OtherEvent = s"

text \<open>
  The loop \<^verbatim>\<open>while (running) { ev = xcb_wait_for_event(conn); if (!ev) break; ... }\<close>
  over the events the server delivers; the end of the list is the \<^verbatim>\<open>NULL\<close> of a
  closed connection. The result is the state at the loop's exit, whose \<open>exit_code\<close>
  \<^verbatim>\<open>main\<close> returns.
\<close>

fun main_loop :: "session \<Rightarrow> event list \<Rightarrow> session" where
  "main_loop s [] = s"
| "main_loop s (ev # evs) =
     (if running s \<noteq> 0 then main_loop (handle_event s ev) evs else s)"

text \<open>
  The state \<^verbatim>\<open>main\<close> enters the loop with (lines 514-520), after the first
  \<^verbatim>\<open>draw\<close>: \<open>W\<close> and \<open>H\<close> are the screen's size in pixels.
\<close>

definition init_session ::
  "int \<Rightarrow> int \<Rightarrow> 32 word \<Rightarrow> 32 word \<Rightarrow> (8 word \<Rightarrow> 32 word) \<Rightarrow> string list \<Rightarrow> session" where
  "init_session W H protocols delete_window ks es =
     draw \<lparr>app_width = W, app_height = H, WM_PROTOCOLS = protocols,
           WM_DELETE_WINDOW = delete_window, keysyms = ks, entries = es,
           hover_idx = - 1, pressed_idx = - 1, exit_code = 1, running = 1,
           stdout = [], frames = []\<rparr> (- 1)"

subsection \<open>Notions of the specification\<close>

text \<open>
  The specification's phase of a session, read off the two flags of \<^verbatim>\<open>main\<close>:
  the loop runs while \<open>running\<close> is non-zero, a selection leaves with exit code 0, a
  cancellation with exit code 1. The code does not store the selected index; it is
  visible as the label written to standard output.
\<close>

datatype phase = Running | Selected | Cancelled

definition phase_of :: "session \<Rightarrow> phase" where
  "phase_of s =
     (if running s \<noteq> 0 then Running else if exit_code s = 0 then Selected else Cancelled)"

text \<open>
  A session to evaluate on: three entries on a 300 by 300 canvas, as \<^verbatim>\<open>main\<close>
  enters its loop. The atoms and the keyboard mapping are arbitrary: keycode 9 is the
  escape key, 24 is \<open>q\<close>.
\<close>

definition demo_keysyms :: "8 word \<Rightarrow> 32 word" where
  "demo_keysyms k = (if k = 9 then 0xff1b else if k = 24 then 113 else 0)"

definition demo_session :: session where
  "demo_session = init_session 300 300 300 301 demo_keysyms [''One'', ''Two'', ''Three'']"

text \<open>
  The same session with no entry. \<^verbatim>\<open>main\<close> returns before the loop when it has read
  no entry, so no run reaches this state; it shows what the loop's code does there.
\<close>

definition empty_session :: session where
  "empty_session = init_session 300 300 300 301 demo_keysyms []"

text \<open>
  The hover index names a wedge.
\<close>

definition hover_in_range :: "session \<Rightarrow> bool" where
  "hover_in_range s = (0 \<le> hover_idx s \<and> hover_idx s \<le> wedge_count s - 1)"

text \<open>
  The events that cancel: a key press whose symbol (column 0 of the keyboard mapping) is
  escape, \<open>q\<close> (113) or \<open>Q\<close> (81), and the window manager's request to close the window,
  a client message of type \<^verbatim>\<open>WM_PROTOCOLS\<close> that carries \<^verbatim>\<open>WM_DELETE_WINDOW\<close>.
\<close>

definition cancel_event :: "session \<Rightarrow> event \<Rightarrow> bool" where
  "cancel_event s ev =
     (case ev of
        KeyPress detail \<Rightarrow> keysyms s detail = XK_Escape \<or> keysyms s detail = 113 \<or> keysyms s detail = 81
      | ClientMessage ty data0 \<Rightarrow> ty = WM_PROTOCOLS s \<and> data0 = WM_DELETE_WINDOW s
      | _ \<Rightarrow> False)"

text \<open>
  Nothing has been written to standard output unless the session has ended with exit
  code 0.
\<close>

definition quiet_unless_selected :: "session \<Rightarrow> bool" where
  "quiet_unless_selected s = (stdout s = [] \<or> (running s = 0 \<and> exit_code s = 0))"

text \<open>
  A font size fits a box when the measured width and height of the text at that size do
  not exceed the box; a measurement is monotone when neither shrinks as the size grows.
\<close>

definition fits :: "(real \<Rightarrow> real \<times> real) \<Rightarrow> real \<Rightarrow> real \<Rightarrow> real \<Rightarrow> bool" where
  "fits extents maxw maxh fs = (fst (extents fs) \<le> maxw \<and> snd (extents fs) \<le> maxh)"

definition monotone_extents :: "(real \<Rightarrow> real \<times> real) \<Rightarrow> bool" where
  "monotone_extents extents =
     (\<forall>a b. a \<le> b \<longrightarrow> fst (extents a) \<le> fst (extents b) \<and> snd (extents a) \<le> snd (extents b))"

text \<open>
  A measurement to evaluate with: text whose height is the font size and whose width is
  \<open>c\<close> times the font size.
\<close>

definition linear_extents :: "real \<Rightarrow> real \<Rightarrow> real \<times> real" where
  "linear_extents c fs = (c * fs, fs)"

text \<open>
  The edge parameters that \<^verbatim>\<open>distance_to_rect_edge\<close> computes and that pass its
  tests, in the order left, right, top, bottom edge: the direction component across the
  edge exceeds \<^verbatim>\<open>1e-9\<close> in absolute value, the parameter is positive, and the computed
  coordinate of the hit along the edge lies within the edge.
\<close>

definition edge_hits :: "arith \<Rightarrow> int \<Rightarrow> int \<Rightarrow> real \<Rightarrow> real \<Rightarrow> real \<Rightarrow> real list" where
  "edge_hits A W H cx cy ang =
     (let dx = fcos A ang;
          dy = fsin A ang;
          t1 = fdiv A (fsub A 0 cx) dx;
          t2 = fdiv A (fsub A (real_of_int W) cx) dx;
          t3 = fdiv A (fsub A 0 cy) dy;
          t4 = fdiv A (fsub A (real_of_int H) cy) dy
      in (if \<bar>dx\<bar> > tiny A \<and> t1 > 0 \<and> fadd A cy (fmul A t1 dy) \<ge> 0 \<and>
             fadd A cy (fmul A t1 dy) \<le> real_of_int H then [t1] else []) @
         (if \<bar>dx\<bar> > tiny A \<and> t2 > 0 \<and> fadd A cy (fmul A t2 dy) \<ge> 0 \<and>
             fadd A cy (fmul A t2 dy) \<le> real_of_int H then [t2] else []) @
         (if \<bar>dy\<bar> > tiny A \<and> t3 > 0 \<and> fadd A cx (fmul A t3 dx) \<ge> 0 \<and>
             fadd A cx (fmul A t3 dx) \<le> real_of_int W then [t3] else []) @
         (if \<bar>dy\<bar> > tiny A \<and> t4 > 0 \<and> fadd A cx (fmul A t4 dx) \<ge> 0 \<and>
             fadd A cx (fmul A t4 dx) \<le> real_of_int W then [t4] else []))"


subsection \<open>Basic facts\<close>


lemma sector_index_bounds:
  "1 \<le> n \<Longrightarrow>
   0 \<le> sector_index_from_point n W H x y \<and> sector_index_from_point n W H x y \<le> n - 1"
  by (simp add: sector_index_from_point_def Let_def)

lemma int_of_size_t_small: "c < 2 ^ 31 \<Longrightarrow> int_of_size_t c = int c"
proof -
  assume a: "c < 2 ^ 31"
  then have "int c < 2 ^ 31" by (metis of_nat_less_iff of_nat_numeral of_nat_power)
  then show ?thesis by (simp add: int_of_size_t_def Let_def)
qed

lemma int_of_size_t_le: "0 \<le> int_of_size_t c \<Longrightarrow> int_of_size_t c \<le> int c"
proof -
  assume a: "0 \<le> int_of_size_t c"
  have m: "int c mod 2 ^ 32 \<le> int c" by (rule zmod_le_nonneg_dividend) simp
  have l: "int c mod 2 ^ 32 < 2 ^ 32" by simp
  show ?thesis
  proof (cases "int c mod 2 ^ 32 < 2 ^ 31")
    case True
    then show ?thesis using m by (simp add: int_of_size_t_def Let_def)
  next
    case False
    then have "int_of_size_t c = int c mod 2 ^ 32 - 2 ^ 32" by (simp add: int_of_size_t_def Let_def)
    with l a show ?thesis by linarith
  qed
qed

lemma main_loop_not_running: "running s = 0 \<Longrightarrow> main_loop s evs = s"
  by (cases evs) simp_all

lemma main_loop_append: "main_loop s (evs1 @ evs2) = main_loop (main_loop s evs1) evs2"
  by (induction evs1 arbitrary: s) (simp_all add: main_loop_not_running)

lemma entries_handle_event [simp]: "entries (handle_event s ev) = entries s"
  by (cases ev) (simp_all add: draw_def Let_def)

lemma wedge_count_handle_event [simp]: "wedge_count (handle_event s ev) = wedge_count s"
  by (simp add: wedge_count_def)

lemma wedge_count_demo: "wedge_count demo_session = 3"
  by (simp add: wedge_count_def demo_session_def init_session_def draw_def int_of_size_t_def)

lemma entries_main_loop [simp]: "entries (main_loop s evs) = entries s"
  by (induction evs arbitrary: s) simp_all

lemma wedge_count_main_loop [simp]: "wedge_count (main_loop s evs) = wedge_count s"
  by (simp add: wedge_count_def)

lemmas demo_defs = demo_session_def init_session_def draw_def wedge_count_def int_of_size_t_def
  sector_index_from_point_def atan2_def Let_def demo_keysyms_def XK_Escape_def phase_of_def

lemma release_primary:
  "handle_event s (ButtonRelease 1 ex ey) =
     (let idx = sector_index_from_point (wedge_count s) (app_width s) (app_height s) (sint ex) (sint ey)
      in if 0 \<le> idx \<and> idx < wedge_count s
         then s\<lparr>stdout := stdout s @ entries s ! nat idx @ [CHR 0x0A],
                exit_code := 0, running := 0, pressed_idx := - 1\<rparr>
         else s\<lparr>pressed_idx := - 1\<rparr>)"
  by (simp add: Let_def)

lemma other_button_press: "detail \<noteq> 1 \<Longrightarrow> handle_event s (ButtonPress detail ex ey) = s"
  by simp

lemma other_button_release:
  "detail \<noteq> 1 \<Longrightarrow> handle_event s (ButtonRelease detail ex ey) = s\<lparr>pressed_idx := - 1\<rparr>"
  by simp

lemma hover_in_range_handle_event:
  assumes "1 \<le> wedge_count s" "hover_in_range s"
  shows "hover_in_range (handle_event s ev)"
proof (cases ev)
  case (MotionNotify ex ey)
  then show ?thesis
    using assms sector_index_bounds [OF assms(1), of "app_width s" "app_height s" "sint ex" "sint ey"]
    by (simp add: hover_in_range_def Let_def draw_def wedge_count_def)
qed (use assms in \<open>simp_all add: hover_in_range_def Let_def draw_def wedge_count_def\<close>)

lemma hover_in_range_main_loop:
  "1 \<le> wedge_count s \<Longrightarrow> hover_in_range s \<Longrightarrow> hover_in_range (main_loop s evs)"
proof (induction evs arbitrary: s)
  case Nil
  then show ?case by simp
next
  case (Cons ev evs)
  show ?case
  proof (cases "running s = 0")
    case True
    with Cons.prems show ?thesis by simp
  next
    case False
    have "hover_in_range (main_loop (handle_event s ev) evs)"
      using Cons.prems by (intro Cons.IH hover_in_range_handle_event) simp_all
    with False show ?thesis by simp
  qed
qed

lemma phase_of_Running: "phase_of s = Running \<longleftrightarrow> running s \<noteq> 0"
  by (simp add: phase_of_def)

lemma cancel_event_handle:
  "cancel_event s ev \<Longrightarrow> handle_event s ev = s\<lparr>exit_code := 1, running := 0\<rparr>"
  by (cases ev) (auto simp add: cancel_event_def Let_def)

lemma quiet_handle_event:
  "running s \<noteq> 0 \<Longrightarrow> quiet_unless_selected s \<Longrightarrow> quiet_unless_selected (handle_event s ev)"
  by (cases ev) (auto simp add: quiet_unless_selected_def Let_def draw_def)

lemma quiet_main_loop:
  "quiet_unless_selected s \<Longrightarrow> quiet_unless_selected (main_loop s evs)"
proof (induction evs arbitrary: s)
  case Nil
  then show ?case by simp
next
  case (Cons ev evs)
  then show ?case by (cases "running s = 0") (simp_all add: quiet_handle_event)
qed

lemma quiet_init: "quiet_unless_selected (init_session W H p d ks es)"
  by (simp add: quiet_unless_selected_def init_session_def draw_def)

lemma fit_loop_unfold:
  "fit_font_size_loop extents maxw maxh it lo hi =
     (if it < 20 then
        if fits extents maxw maxh ((lo + hi) / 2)
        then fit_font_size_loop extents maxw maxh (Suc it) ((lo + hi) / 2) hi
        else fit_font_size_loop extents maxw maxh (Suc it) lo ((lo + hi) / 2)
      else lo)"
  unfolding fits_def
  using fit_font_size_loop.simps [of extents maxw maxh it lo hi] by (simp add: Let_def)

lemma fit_loop_done:
  "\<not> it < 20 \<Longrightarrow> fit_font_size_loop extents maxw maxh it lo hi = lo"
  using fit_loop_unfold [of extents maxw maxh it lo hi] by simp

lemma fit_loop_fit:
  "it < 20 \<Longrightarrow> fits extents maxw maxh ((lo + hi) / 2) \<Longrightarrow>
   fit_font_size_loop extents maxw maxh it lo hi =
   fit_font_size_loop extents maxw maxh (Suc it) ((lo + hi) / 2) hi"
  using fit_loop_unfold [of extents maxw maxh it lo hi] by simp

lemma fit_loop_nofit:
  "it < 20 \<Longrightarrow> \<not> fits extents maxw maxh ((lo + hi) / 2) \<Longrightarrow>
   fit_font_size_loop extents maxw maxh it lo hi =
   fit_font_size_loop extents maxw maxh (Suc it) lo ((lo + hi) / 2)"
  using fit_loop_unfold [of extents maxw maxh it lo hi] by simp

lemma fit_loop_induct [case_names step]:
  assumes "\<And>it lo hi.
     (it < 20 \<Longrightarrow> fits extents maxw maxh ((lo + hi) / 2) \<Longrightarrow> P (Suc it) ((lo + hi) / 2) hi) \<Longrightarrow>
     (it < 20 \<Longrightarrow> \<not> fits extents maxw maxh ((lo + hi) / 2) \<Longrightarrow> P (Suc it) lo ((lo + hi) / 2)) \<Longrightarrow>
     P it lo hi"
  shows "P it lo hi"
proof (induction "20 - it" arbitrary: it lo hi)
  case 0
  then have "\<not> it < 20" by simp
  then show ?case by - (rule assms, simp_all)
next
  case (Suc n)
  then have n: "n = 20 - Suc it" by simp
  show ?case by (rule assms) (rule Suc.hyps(1) [OF n])+
qed

lemma fit_loop_range:
  "lo \<le> hi \<Longrightarrow> lo \<le> fit_font_size_loop extents maxw maxh it lo hi \<and>
                fit_font_size_loop extents maxw maxh it lo hi \<le> hi"
proof (induction it lo hi rule: fit_loop_induct [where extents = extents and maxw = maxw and maxh = maxh])
  case (step it lo hi)
  have m: "lo \<le> (lo + hi) / 2" "(lo + hi) / 2 \<le> hi" using step.prems by simp_all
  consider (stop) "\<not> it < 20" | (fit) "it < 20" "fits extents maxw maxh ((lo + hi) / 2)"
    | (nofit) "it < 20" "\<not> fits extents maxw maxh ((lo + hi) / 2)"
    by blast
  then show ?case
  proof cases
    case stop
    then show ?thesis using step.prems by (simp add: fit_loop_done)
  next
    case fit
    then show ?thesis using step.IH(1) [OF fit m(2)] m by (simp add: fit_loop_fit)
  next
    case nofit
    then show ?thesis using step.IH(2) [OF nofit m(1)] m by (simp add: fit_loop_nofit)
  qed
qed

lemma fit_loop_lo_or_fits:
  "fit_font_size_loop extents maxw maxh it lo hi = lo \<or>
   fits extents maxw maxh (fit_font_size_loop extents maxw maxh it lo hi)"
proof (induction it lo hi rule: fit_loop_induct [where extents = extents and maxw = maxw and maxh = maxh])
  case (step it lo hi)
  consider (stop) "\<not> it < 20" | (fit) "it < 20" "fits extents maxw maxh ((lo + hi) / 2)"
    | (nofit) "it < 20" "\<not> fits extents maxw maxh ((lo + hi) / 2)"
    by blast
  then show ?case
  proof cases
    case stop
    then show ?thesis by (simp add: fit_loop_done)
  next
    case fit
    let ?r = "fit_font_size_loop extents maxw maxh (Suc it) ((lo + hi) / 2) hi"
    have "?r = (lo + hi) / 2 \<or> fits extents maxw maxh ?r" by (rule step.IH(1) [OF fit])
    with fit(2) have "fits extents maxw maxh ?r" by metis
    then show ?thesis using fit by (simp only: fit_loop_fit simp_thms)
  next
    case nofit
    then show ?thesis using step.IH(2) [OF nofit] by (simp add: fit_loop_nofit)
  qed
qed

lemma fit_loop_gap:
  "it \<le> 20 \<Longrightarrow>
   \<exists>top. top - fit_font_size_loop extents maxw maxh it lo hi = (hi - lo) / 2 ^ (20 - it) \<and>
         (top = hi \<or> \<not> fits extents maxw maxh top)"
proof (induction it lo hi rule: fit_loop_induct [where extents = extents and maxw = maxw and maxh = maxh])
  case (step it lo hi)
  consider (stop) "\<not> it < 20" | (fit) "it < 20" "fits extents maxw maxh ((lo + hi) / 2)"
    | (nofit) "it < 20" "\<not> fits extents maxw maxh ((lo + hi) / 2)"
    by blast
  then show ?case
  proof cases
    case stop
    with step.prems have "it = 20" by simp
    then show ?thesis by (simp add: fit_loop_done)
  next
    case fit
    then have "20 - it = Suc (20 - Suc it)" by simp
    then have p: "(2::real) ^ (20 - it) = 2 * 2 ^ (20 - Suc it)"
      by (simp only: power_Suc)
    from fit have "Suc it \<le> 20" by simp
    from step.IH(1) [OF fit this] obtain top where
      t: "top - fit_font_size_loop extents maxw maxh (Suc it) ((lo + hi) / 2) hi =
            (hi - (lo + hi) / 2) / 2 ^ (20 - Suc it)"
         "top = hi \<or> \<not> fits extents maxw maxh top"
      by blast
    have g: "(hi - (lo + hi) / 2) / 2 ^ (20 - Suc it) = (hi - lo) / 2 ^ (20 - it)"
      unfolding p by (simp add: field_simps)
    have eq: "fit_font_size_loop extents maxw maxh it lo hi =
              fit_font_size_loop extents maxw maxh (Suc it) ((lo + hi) / 2) hi"
      using fit by (rule fit_loop_fit)
    show ?thesis unfolding eq
    proof (intro exI conjI)
      show "top - fit_font_size_loop extents maxw maxh (Suc it) ((lo + hi) / 2) hi =
            (hi - lo) / 2 ^ (20 - it)"
        using t(1) g by simp
      show "top = hi \<or> \<not> fits extents maxw maxh top" by (rule t(2))
    qed
  next
    case nofit
    then have "20 - it = Suc (20 - Suc it)" by simp
    then have p: "(2::real) ^ (20 - it) = 2 * 2 ^ (20 - Suc it)"
      by (simp only: power_Suc)
    from nofit have "Suc it \<le> 20" by simp
    from step.IH(2) [OF nofit this] obtain top where
      t: "top - fit_font_size_loop extents maxw maxh (Suc it) lo ((lo + hi) / 2) =
            ((lo + hi) / 2 - lo) / 2 ^ (20 - Suc it)"
         "top = (lo + hi) / 2 \<or> \<not> fits extents maxw maxh top"
      by blast
    have g: "((lo + hi) / 2 - lo) / 2 ^ (20 - Suc it) = (hi - lo) / 2 ^ (20 - it)"
      unfolding p by (simp add: field_simps)
    have nf: "\<not> fits extents maxw maxh top" using t(2) nofit(2) by blast
    have eq: "fit_font_size_loop extents maxw maxh it lo hi =
              fit_font_size_loop extents maxw maxh (Suc it) lo ((lo + hi) / 2)"
      using nofit by (rule fit_loop_nofit)
    show ?thesis unfolding eq
    proof (intro exI conjI)
      show "top - fit_font_size_loop extents maxw maxh (Suc it) lo ((lo + hi) / 2) =
            (hi - lo) / 2 ^ (20 - it)"
        using t(1) g by simp
      show "top = hi \<or> \<not> fits extents maxw maxh top" using nf by simp
    qed
  qed
qed


lemma fit_font_size_gap:
  "\<exists>top. top - fit_font_size extents maxw maxh = (max 1 (min maxw maxh) - 1) / 2 ^ 20 \<and>
         (top = max 1 (min maxw maxh) \<or> \<not> fits extents maxw maxh top)"
  using fit_loop_gap [of 0 extents maxw maxh 1 "max 1 (min maxw maxh)"]
  by (simp add: fit_font_size_def)

lemma fits_mono:
  "monotone_extents extents \<Longrightarrow> a \<le> b \<Longrightarrow> maxw \<le> maxw' \<Longrightarrow> maxh \<le> maxh' \<Longrightarrow>
   fits extents maxw maxh b \<Longrightarrow> fits extents maxw' maxh' a"
  unfolding monotone_extents_def fits_def by (meson order_trans)

lemma fmin_inf_right_None [simp]: "fmin_inf a None = a"
  by (cases a) simp_all



lemma hits_edge_iff:
  fixes d c t e :: real
  assumes "\<bar>d\<bar> > 1 / 1000000000"
  shows "c + t * d = e \<longleftrightarrow> t = (e - c) / d"
proof -
  from assms have "d \<noteq> 0" by auto
  then show ?thesis by (auto simp add: field_simps)
qed

lemma edge_hits_exact:
  "t \<in> set (edge_hits exact_arith W H cx cy ang) \<longleftrightarrow>
     0 < t \<and>
     (\<bar>cos ang\<bar> > 1 / 1000000000 \<and>
        (cx + t * cos ang = 0 \<or> cx + t * cos ang = real_of_int W) \<and>
        0 \<le> cy + t * sin ang \<and> cy + t * sin ang \<le> real_of_int H \<or>
      \<bar>sin ang\<bar> > 1 / 1000000000 \<and>
        (cy + t * sin ang = 0 \<or> cy + t * sin ang = real_of_int H) \<and>
        0 \<le> cx + t * cos ang \<and> cx + t * cos ang \<le> real_of_int W)"
proof -
  define dx where "dx = cos ang"
  define dy where "dy = sin ang"
  have hits: "t \<in> set (edge_hits exact_arith W H cx cy ang) \<longleftrightarrow>
     (\<bar>dx\<bar> > 1 / 1000000000 \<and> 0 < (0 - cx) / dx \<and> 0 \<le> cy + (0 - cx) / dx * dy \<and>
        cy + (0 - cx) / dx * dy \<le> real_of_int H \<and> t = (0 - cx) / dx \<or>
      \<bar>dx\<bar> > 1 / 1000000000 \<and> 0 < (real_of_int W - cx) / dx \<and>
        0 \<le> cy + (real_of_int W - cx) / dx * dy \<and>
        cy + (real_of_int W - cx) / dx * dy \<le> real_of_int H \<and> t = (real_of_int W - cx) / dx \<or>
      \<bar>dy\<bar> > 1 / 1000000000 \<and> 0 < (0 - cy) / dy \<and> 0 \<le> cx + (0 - cy) / dy * dx \<and>
        cx + (0 - cy) / dy * dx \<le> real_of_int W \<and> t = (0 - cy) / dy \<or>
      \<bar>dy\<bar> > 1 / 1000000000 \<and> 0 < (real_of_int H - cy) / dy \<and>
        0 \<le> cx + (real_of_int H - cy) / dy * dx \<and>
        cx + (real_of_int H - cy) / dy * dx \<le> real_of_int W \<and> t = (real_of_int H - cy) / dy)"
    unfolding edge_hits_def exact_arith_def Let_def dx_def dy_def
    by (simp only: arith.simps) auto
  show ?thesis
  proof (cases "\<bar>dx\<bar> > 1 / 1000000000")
    case X: True
    show ?thesis
    proof (cases "\<bar>dy\<bar> > 1 / 1000000000")
      case Y: True
      show ?thesis unfolding hits
        using X Y hits_edge_iff [OF X] hits_edge_iff [OF Y]
        unfolding dx_def dy_def by (simp only:) blast
    next
      case Y: False
      show ?thesis unfolding hits
        using X Y hits_edge_iff [OF X]
        unfolding dx_def dy_def by (simp only:) blast
    qed
  next
    case X: False
    show ?thesis
    proof (cases "\<bar>dy\<bar> > 1 / 1000000000")
      case Y: True
      show ?thesis unfolding hits
        using X Y hits_edge_iff [OF Y]
        unfolding dx_def dy_def by (simp only:) blast
    next
      case Y: False
      show ?thesis unfolding hits
        using X Y
        unfolding dx_def dy_def by (simp only:) blast
    qed
  qed
qed

subsection \<open>The geometry engine\<close>



text \<open>
  Claim C4, as the code has it. The search runs over \<open>[1, max 1 (min maxw maxh)]\<close>, and
  its result lies there. The result is the lower bound 1 or a size that fits, so it
  fits whenever size 1 fits; no smaller size is tried. For a monotone measurement the
  result is the largest fitting size up to the resolution of twenty halvings: no size
  below the upper bound that exceeds the result by \<open>(top - 1) / 2^20\<close> fits. When the
  box grows, the result need not grow, but for a monotone measurement it never falls
  by more than the resolution of the search in the larger box.
\<close>

theorem fit_font_size_bounded_search:
  "(let r = fit_font_size extents maxw maxh; top = max 1 (min maxw maxh)
    in 1 \<le> r \<and> r \<le> top \<and> (r = 1 \<or> fits extents maxw maxh r) \<and>
       (fits extents maxw maxh 1 \<longrightarrow> fits extents maxw maxh r) \<and>
       (monotone_extents extents \<longrightarrow>
          (\<forall>s. r + (top - 1) / 2 ^ 20 \<le> s \<and> s < top \<longrightarrow> \<not> fits extents maxw maxh s)) \<and>
       (monotone_extents extents \<and> maxw \<le> maxw' \<and> maxh \<le> maxh' \<longrightarrow>
          r - (max 1 (min maxw' maxh') - 1) / 2 ^ 20 \<le> fit_font_size extents maxw' maxh'))"
proof -
  let ?r = "fit_font_size extents maxw maxh"
  let ?top = "max 1 (min maxw maxh)"
  let ?r' = "fit_font_size extents maxw' maxh'"
  let ?top' = "max 1 (min maxw' maxh')"
  have range: "1 \<le> ?r \<and> ?r \<le> ?top"
    using fit_loop_range [of 1 ?top extents maxw maxh 0] by (simp add: fit_font_size_def)
  have range': "1 \<le> ?r'"
    using fit_loop_range [of 1 ?top' extents maxw' maxh' 0] by (simp add: fit_font_size_def)
  have lof: "?r = 1 \<or> fits extents maxw maxh ?r"
    using fit_loop_lo_or_fits [of extents maxw maxh 0 1 ?top] by (simp add: fit_font_size_def)
  then have keep: "fits extents maxw maxh 1 \<longrightarrow> fits extents maxw maxh ?r" by metis
  have largest: "\<not> fits extents maxw maxh s"
    if mono: "monotone_extents extents" and s: "?r + (?top - 1) / 2 ^ 20 \<le> s" "s < ?top" for s
  proof
    assume f: "fits extents maxw maxh s"
    obtain t where t: "t - ?r = (?top - 1) / 2 ^ 20" "t = ?top \<or> \<not> fits extents maxw maxh t"
      using fit_font_size_gap [of extents maxw maxh] by blast
    from t(1) s(1) have ts: "t \<le> s" by linarith
    with s(2) have "t \<noteq> ?top" by linarith
    with t(2) have "\<not> fits extents maxw maxh t" by blast
    moreover have "fits extents maxw maxh t"
      using fits_mono [OF mono ts order_refl order_refl f] .
    ultimately show False by blast
  qed
  have scale: "?r - (?top' - 1) / 2 ^ 20 \<le> ?r'"
    if mono: "monotone_extents extents" and w: "maxw \<le> maxw'" and h: "maxh \<le> maxh'"
  proof -
    have tt: "?top \<le> ?top'" using w h by (simp add: max_def min_def)
    have eps: "0 \<le> (?top' - 1) / 2 ^ 20" by simp
    obtain t where t: "t - ?r' = (?top' - 1) / 2 ^ 20" "t = ?top' \<or> \<not> fits extents maxw' maxh' t"
      using fit_font_size_gap [of extents maxw' maxh'] by blast
    show ?thesis
    proof (cases "?r = 1")
      case True
      with range' eps show ?thesis by linarith
    next
      case False
      with lof have f: "fits extents maxw maxh ?r" by blast
      have "?r \<le> t"
      proof (cases "t = ?top'")
        case True
        with range tt show ?thesis by linarith
      next
        case False
        with t(2) have nf: "\<not> fits extents maxw' maxh' t" by blast
        show ?thesis
        proof (rule ccontr)
          assume "\<not> ?r \<le> t"
          then have "t \<le> ?r" by simp
          from fits_mono [OF mono this w h f] nf show False by blast
        qed
      qed
      with t(1) show ?thesis by linarith
    qed
  qed
  show ?thesis unfolding Let_def using range lof keep largest scale by blast
qed

theorem fit_font_size_bounded_search_witness:
  "monotone_extents (linear_extents 3) \<and> (12::real) \<le> 24 \<and> (5::real) \<le> 10 \<and>
   fits (linear_extents 3) 12 5 1 \<and>
   fits (linear_extents 3) 12 5 (fit_font_size (linear_extents 3) 12 5) \<and>
   fit_font_size (linear_extents 3) 12 5 = 4 \<and>
   fit_font_size (linear_extents 3) 12 5 + (max 1 (min 12 5) - 1) / 2 ^ 20 \<le> 9 / 2 \<and>
   (9 / 2 :: real) < max 1 (min 12 5) \<and>
   \<not> fits (linear_extents 3) 12 5 (9 / 2) \<and>
   fit_font_size (linear_extents 3) 12 5 - (max 1 (min 24 10) - 1) / 2 ^ 20
     \<le> fit_font_size (linear_extents 3) 24 10"
proof -
  have m: "monotone_extents (linear_extents 3)"
    by (simp add: monotone_extents_def linear_extents_def)
  have f1: "fits (linear_extents 3) 12 5 1" by (simp add: fits_def linear_extents_def)
  have v: "fit_font_size (linear_extents 3) 12 5 = 4"
    by (simp add: fit_font_size_def fit_loop_unfold fits_def linear_extents_def)
  have s: "fit_font_size (linear_extents 3) 12 5 + (max 1 (min 12 5) - 1) / 2 ^ 20 \<le> 9 / 2"
    "(9 / 2 :: real) < max 1 (min 12 5)"
    unfolding v by simp_all
  have o: "(12::real) \<le> 24" "(5::real) \<le> 10" by simp_all
  note t = fit_font_size_bounded_search [of "linear_extents 3" 12 5 24 10, unfolded Let_def]
  have a: "fits (linear_extents 3) 12 5 (fit_font_size (linear_extents 3) 12 5)"
    using t f1 by blast
  have b: "\<not> fits (linear_extents 3) 12 5 (9 / 2)"
    using t m s by blast
  have c: "fit_font_size (linear_extents 3) 12 5 - (max 1 (min 24 10) - 1) / 2 ^ 20
     \<le> fit_font_size (linear_extents 3) 24 10"
    using t m o by blast
  show ?thesis using m f1 v s o a b c by blast
qed

text \<open>
  The claim as stated fails: for text ten times as wide as high, nothing from size 1
  upwards fits a 5 by 5 box, and the search returns 1, whose measured width 10 exceeds
  the box; in the larger 6 by 6 box it returns 1 again, so the result has not grown.
\<close>

theorem fit_font_size_counterexample:
  "monotone_extents (linear_extents 10) \<and>
   fit_font_size (linear_extents 10) 5 5 = 1 \<and>
   \<not> fits (linear_extents 10) 5 5 (fit_font_size (linear_extents 10) 5 5) \<and>
   (5::real) < 6 \<and>
   \<not> fit_font_size (linear_extents 10) 5 5 < fit_font_size (linear_extents 10) 6 6"
proof -
  have m: "monotone_extents (linear_extents 10)"
    by (simp add: monotone_extents_def linear_extents_def)
  have v5: "fit_font_size (linear_extents 10) 5 5 = 1"
    by (simp add: fit_font_size_def fit_loop_unfold fits_def linear_extents_def)
  have v6: "fit_font_size (linear_extents 10) 6 6 = 1"
    by (simp add: fit_font_size_def fit_loop_unfold fits_def linear_extents_def)
  have nf: "\<not> fits (linear_extents 10) 5 5 1" by (simp add: fits_def linear_extents_def)
  show ?thesis using m nf unfolding v5 v6 by simp
qed




subsection \<open>The interaction state machine\<close>

text \<open>
  Claim C1. With the three entries \<open>One\<close>, \<open>Two\<close>, \<open>Three\<close> on a 300 by 300 canvas, a
  release of button 1 at \<open>(250, 150)\<close> ends the session as selected, with exit code 0 and
  the line \<open>One\<close> on standard output. In general, in a running session with at least one
  wedge, a release of button 1 whose computed index \<open>idx\<close> is a valid wedge ends the
  session as selected, and writes the label of entry \<open>idx\<close> (an entry that exists)
  followed by a newline; it clears \<open>pressed_idx\<close> and paints nothing.
\<close>

theorem release_selects:
  "(let s' = main_loop (init_session 300 300 protocols delete_window ks [''One'', ''Two'', ''Three''])
               [ButtonRelease 1 250 150]
    in phase_of s' = Selected \<and> exit_code s' = 0 \<and> stdout s' = ''One'' @ [CHR 0x0A]) \<and>
   (running s \<noteq> 0 \<and> 1 \<le> wedge_count s \<and>
    idx = sector_index_from_point (wedge_count s) (app_width s) (app_height s) (sint ex) (sint ey) \<and>
    0 \<le> idx \<and> idx < wedge_count s \<longrightarrow>
      (let s' = main_loop s [ButtonRelease 1 ex ey]
       in phase_of s' = Selected \<and> running s' = 0 \<and> exit_code s' = 0 \<and>
          nat idx < length (entries s) \<and>
          stdout s' = stdout s @ entries s ! nat idx @ [CHR 0x0A] \<and>
          pressed_idx s' = - 1 \<and> hover_idx s' = hover_idx s \<and> frames s' = frames s))"
proof -
  have concrete:
    "(let s' = main_loop (init_session 300 300 protocols delete_window ks [''One'', ''Two'', ''Three''])
               [ButtonRelease 1 250 150]
      in phase_of s' = Selected \<and> exit_code s' = 0 \<and> stdout s' = ''One'' @ [CHR 0x0A])"
    by (simp add: demo_defs)
  have general: "(let s' = main_loop s [ButtonRelease 1 ex ey]
       in phase_of s' = Selected \<and> running s' = 0 \<and> exit_code s' = 0 \<and>
          nat idx < length (entries s) \<and>
          stdout s' = stdout s @ entries s ! nat idx @ [CHR 0x0A] \<and>
          pressed_idx s' = - 1 \<and> hover_idx s' = hover_idx s \<and> frames s' = frames s)"
    if h: "running s \<noteq> 0" "1 \<le> wedge_count s"
      "idx = sector_index_from_point (wedge_count s) (app_width s) (app_height s) (sint ex) (sint ey)"
      "0 \<le> idx" "idx < wedge_count s"
  proof -
    have "wedge_count s \<le> int (length (entries s))"
      using h(2) int_of_size_t_le [of "length (entries s)"] by (simp add: wedge_count_def)
    with h(4,5) have "nat idx < length (entries s)" by linarith
    then show ?thesis using h by (simp add: Let_def phase_of_def)
  qed
  show ?thesis using concrete general by blast
qed

theorem release_selects_witness:
  "running demo_session \<noteq> 0 \<and> 1 \<le> wedge_count demo_session \<and>
   sector_index_from_point (wedge_count demo_session) (app_width demo_session)
     (app_height demo_session) (sint (250 :: 16 word)) (sint (150 :: 16 word)) = 0 \<and>
   phase_of (main_loop demo_session [ButtonRelease 1 250 150]) = Selected \<and>
   stdout (main_loop demo_session [ButtonRelease 1 250 150]) = ''One'' @ [CHR 0x0A] \<and>
   pressed_idx (main_loop demo_session [ButtonRelease 1 250 150]) = - 1"
proof -
  have h: "running demo_session \<noteq> 0 \<and> 1 \<le> wedge_count demo_session \<and>
    (0::int) = sector_index_from_point (wedge_count demo_session) (app_width demo_session)
     (app_height demo_session) (sint (250 :: 16 word)) (sint (150 :: 16 word)) \<and>
     (0::int) \<le> 0 \<and> 0 < wedge_count demo_session"
    by (simp add: demo_defs)
  have e: "entries demo_session ! nat 0 = ''One''" "stdout demo_session = []"
    by (simp_all add: demo_defs)
  show ?thesis
    using h e release_selects [of 0 0 "\<lambda>_. 0" demo_session 0 250 150]
    by (simp add: Let_def)
qed

text \<open>
  Claim C3, as the code has it. A release of button 1 in a running session always clears
  \<open>pressed_idx\<close>. Where the computed index is not a valid wedge, nothing else changes and
  the session stays running; but with at least one wedge the computed index is valid at
  every point, also outside the canvas, so the release selects the wedge that the angle
  of the point gives. The index is invalid only with no wedge at all.
\<close>

theorem release_never_invalid:
  "running s \<noteq> 0 \<longrightarrow>
     (let idx = sector_index_from_point (wedge_count s) (app_width s) (app_height s)
                  (sint ex) (sint ey);
          s' = main_loop s [ButtonRelease 1 ex ey]
      in pressed_idx s' = - 1 \<and>
         (\<not> (0 \<le> idx \<and> idx < wedge_count s) \<longrightarrow> s' = s\<lparr>pressed_idx := - 1\<rparr>) \<and>
         (1 \<le> wedge_count s \<longrightarrow>
            0 \<le> idx \<and> idx < wedge_count s \<and> phase_of s' = Selected \<and>
            stdout s' = stdout s @ entries s ! nat idx @ [CHR 0x0A]))"
proof -
  have "0 \<le> sector_index_from_point (wedge_count s) (app_width s) (app_height s) (sint ex) (sint ey)
        \<and> sector_index_from_point (wedge_count s) (app_width s) (app_height s) (sint ex) (sint ey)
          < wedge_count s"
    if "1 \<le> wedge_count s"
    using sector_index_bounds [OF that, of "app_width s" "app_height s" "sint ex" "sint ey"]
    by linarith
  then show ?thesis by (simp add: Let_def phase_of_def)
qed

theorem release_never_invalid_witness:
  "running demo_session \<noteq> 0 \<and> 1 \<le> wedge_count demo_session \<and>
   pressed_idx (main_loop demo_session [ButtonRelease 1 (- 7) 500]) = - 1 \<and>
   phase_of (main_loop demo_session [ButtonRelease 1 (- 7) 500]) = Selected \<and>
   running empty_session \<noteq> 0 \<and>
   \<not> (0 \<le> sector_index_from_point (wedge_count empty_session) (app_width empty_session)
            (app_height empty_session) (sint (400 :: 16 word)) (sint (150 :: 16 word)) \<and>
        sector_index_from_point (wedge_count empty_session) (app_width empty_session)
            (app_height empty_session) (sint (400 :: 16 word)) (sint (150 :: 16 word))
          < wedge_count empty_session) \<and>
   main_loop empty_session [ButtonRelease 1 400 150] = empty_session\<lparr>pressed_idx := - 1\<rparr>"
proof -
  have a: "running demo_session \<noteq> 0" "1 \<le> wedge_count demo_session"
    by (simp_all add: demo_defs)
  have b: "running empty_session \<noteq> 0"
    by (simp add: empty_session_def demo_defs)
  have c: "\<not> (0 \<le> sector_index_from_point (wedge_count empty_session) (app_width empty_session)
            (app_height empty_session) (sint (400 :: 16 word)) (sint (150 :: 16 word)) \<and>
        sector_index_from_point (wedge_count empty_session) (app_width empty_session)
            (app_height empty_session) (sint (400 :: 16 word)) (sint (150 :: 16 word))
          < wedge_count empty_session)"
    by (simp add: empty_session_def demo_defs)
  have d: "pressed_idx (main_loop demo_session [ButtonRelease 1 (- 7) 500]) = - 1 \<and>
           phase_of (main_loop demo_session [ButtonRelease 1 (- 7) 500]) = Selected"
    using a release_never_invalid [of demo_session "- 7" 500] unfolding Let_def by blast
  have e: "main_loop empty_session [ButtonRelease 1 400 150] = empty_session\<lparr>pressed_idx := - 1\<rparr>"
    using b c release_never_invalid [of empty_session 400 150] unfolding Let_def by blast
  show ?thesis using a b c d e by blast
qed

text \<open>
  The claim as stated fails: on the 300 by 300 canvas with three entries, a release at
  \<open>(400, 150)\<close>, right of the canvas, selects entry 0 and ends the session.
\<close>

theorem release_outside_counterexample:
  "running demo_session \<noteq> 0 \<and> 1 \<le> wedge_count demo_session \<and>
   app_width demo_session \<le> sint (400 :: 16 word) \<and>
   phase_of (main_loop demo_session [ButtonRelease 1 400 150]) \<noteq> Running \<and>
   phase_of (main_loop demo_session [ButtonRelease 1 400 150]) = Selected \<and>
   running (main_loop demo_session [ButtonRelease 1 400 150]) = 0 \<and>
   stdout (main_loop demo_session [ButtonRelease 1 400 150]) = ''One'' @ [CHR 0x0A]"
  by (simp add: demo_defs)

text \<open>
  Claim C7. In a running session, a pointer motion whose computed index equals
  \<open>hover_idx\<close> changes nothing and paints nothing; one whose index differs sets
  \<open>hover_idx\<close> to it and paints exactly one frame, changing nothing else. A second
  motion to the same point is always without effect, so two motions in a row to one
  point paint one frame whenever the first changes the hover index, as it does in a
  session with at least one wedge whose \<open>hover_idx\<close> is still \<open>-1\<close>.
\<close>

theorem hover_idempotent:
  "running s \<noteq> 0 \<longrightarrow>
     (let idx = sector_index_from_point (wedge_count s) (app_width s) (app_height s)
                  (sint ex) (sint ey);
          s1 = main_loop s [MotionNotify ex ey];
          s2 = main_loop s [MotionNotify ex ey, MotionNotify ex ey]
      in (idx = hover_idx s \<longrightarrow> s1 = s) \<and>
         (idx \<noteq> hover_idx s \<longrightarrow>
            s1 = s\<lparr>hover_idx := idx,
                   frames := frames s @ [(app_width s, app_height s, idx)]\<rparr> \<and>
            length (frames s1) = length (frames s) + 1) \<and>
         s2 = s1 \<and>
         (1 \<le> wedge_count s \<and> hover_idx s = - 1 \<longrightarrow>
            length (frames s2) = length (frames s) + 1))"
proof -
  let ?idx = "sector_index_from_point (wedge_count s) (app_width s) (app_height s)
                (sint ex) (sint ey)"
  have fresh: "?idx \<noteq> - 1" if "1 \<le> wedge_count s"
    using sector_index_bounds [OF that, of "app_width s" "app_height s" "sint ex" "sint ey"]
    by linarith
  show ?thesis
  proof (cases "?idx = hover_idx s")
    case True
    then show ?thesis using fresh by (auto simp add: Let_def)
  next
    case False
    then show ?thesis by (simp add: Let_def draw_def wedge_count_def)
  qed
qed

theorem hover_idempotent_witness:
  "running demo_session \<noteq> 0 \<and> 1 \<le> wedge_count demo_session \<and> hover_idx demo_session = - 1 \<and>
   sector_index_from_point (wedge_count demo_session) (app_width demo_session)
     (app_height demo_session) (sint (160 :: 16 word)) (sint (150 :: 16 word)) \<noteq> hover_idx demo_session \<and>
   hover_idx (main_loop demo_session [MotionNotify 160 150]) = 0 \<and>
   length (frames (main_loop demo_session [MotionNotify 160 150, MotionNotify 160 150])) =
     length (frames demo_session) + 1 \<and>
   sector_index_from_point (wedge_count demo_session) (app_width demo_session)
     (app_height demo_session) (sint (160 :: 16 word)) (sint (150 :: 16 word)) =
     hover_idx (main_loop demo_session [MotionNotify 160 150]) \<and>
   main_loop (main_loop demo_session [MotionNotify 160 150]) [MotionNotify 160 150] =
     main_loop demo_session [MotionNotify 160 150]"
proof -
  let ?m = "main_loop demo_session [MotionNotify 160 150]"
  have a: "running demo_session \<noteq> 0" "1 \<le> wedge_count demo_session"
    "hover_idx demo_session = - 1"
    by (simp_all add: demo_defs)
  have i: "sector_index_from_point (wedge_count demo_session) (app_width demo_session)
     (app_height demo_session) (sint (160 :: 16 word)) (sint (150 :: 16 word)) = 0"
    by (simp add: demo_defs)
  have m: "running ?m \<noteq> 0" "hover_idx ?m = 0" "wedge_count ?m = wedge_count demo_session"
    "app_width ?m = app_width demo_session" "app_height ?m = app_height demo_session"
    by (simp_all add: demo_defs)
  have two: "length (frames (main_loop demo_session [MotionNotify 160 150, MotionNotify 160 150])) =
     length (frames demo_session) + 1"
    using a hover_idempotent [of demo_session 160 150] unfolding Let_def by blast
  have again: "main_loop ?m [MotionNotify 160 150] = ?m"
    using m i hover_idempotent [of ?m 160 150] unfolding Let_def by metis
  show ?thesis using a i m two again by simp
qed

text \<open>
  Claim C9, at the input where the code departs from it. The handler of a button press
  writes \<open>pressed_idx\<close> only for button 1, and a press of another button changes nothing
  (\<open>other_button_press\<close>). The handler of a button release resets \<open>pressed_idx\<close> after
  its test for button 1, so the release of any other button resets it too
  (\<open>other_button_release\<close>): after a press of button 1 on wedge 0, the release of
  button 3 changes \<open>pressed_idx\<close> from 0 to \<open>-1\<close> while the session keeps running.
\<close>

theorem other_button_release_clears_pressed:
  "running demo_session \<noteq> 0 \<and>
   pressed_idx (main_loop demo_session [ButtonPress 1 250 150]) = 0 \<and>
   pressed_idx (main_loop demo_session [ButtonPress 1 250 150, ButtonRelease 3 250 150]) = - 1 \<and>
   phase_of (main_loop demo_session [ButtonPress 1 250 150, ButtonRelease 3 250 150]) = Running"
  by (simp add: demo_defs)

text \<open>
  Claim C10. In a running session with at least one wedge, the motion handler computes
  an index other than \<open>-1\<close> at every pointer position, and once a motion event has been
  handled, \<open>hover_idx\<close> lies in \<open>[0, n-1]\<close> and stays there, whatever events follow: it
  never is \<open>-1\<close> again.
\<close>

theorem hover_stays_in_range:
  "running s \<noteq> 0 \<and> 1 \<le> wedge_count s \<longrightarrow>
     sector_index_from_point (wedge_count s) (app_width s) (app_height s) (sint ex) (sint ey) \<noteq> - 1 \<and>
     (let s1 = main_loop s [MotionNotify ex ey]
      in 0 \<le> hover_idx s1 \<and> hover_idx s1 \<le> wedge_count s - 1 \<and>
         (\<forall>evs. 0 \<le> hover_idx (main_loop s1 evs) \<and>
                hover_idx (main_loop s1 evs) \<le> wedge_count s - 1 \<and>
                hover_idx (main_loop s1 evs) \<noteq> - 1))"
proof (intro impI)
  assume h: "running s \<noteq> 0 \<and> 1 \<le> wedge_count s"
  let ?s1 = "main_loop s [MotionNotify ex ey]"
  have b: "0 \<le> sector_index_from_point (wedge_count s) (app_width s) (app_height s) (sint ex) (sint ey)
         \<and> sector_index_from_point (wedge_count s) (app_width s) (app_height s) (sint ex) (sint ey)
            \<le> wedge_count s - 1"
    using h sector_index_bounds by blast
  have w: "wedge_count ?s1 = wedge_count s" by (rule wedge_count_main_loop)
  have r1: "hover_in_range ?s1"
    using h b by (auto simp add: hover_in_range_def Let_def draw_def wedge_count_def)
  have hr: "hover_in_range (main_loop ?s1 evs)" for evs
    using h r1 w hover_in_range_main_loop [of ?s1 evs] by (simp del: main_loop.simps)
  have all: "0 \<le> hover_idx (main_loop ?s1 evs) \<and>
                hover_idx (main_loop ?s1 evs) \<le> wedge_count s - 1 \<and>
                hover_idx (main_loop ?s1 evs) \<noteq> - 1" for evs
    using hr [of evs] unfolding hover_in_range_def wedge_count_main_loop by linarith
  show "sector_index_from_point (wedge_count s) (app_width s) (app_height s) (sint ex) (sint ey) \<noteq> - 1 \<and>
     (let s1 = main_loop s [MotionNotify ex ey]
      in 0 \<le> hover_idx s1 \<and> hover_idx s1 \<le> wedge_count s - 1 \<and>
         (\<forall>evs. 0 \<le> hover_idx (main_loop s1 evs) \<and>
                hover_idx (main_loop s1 evs) \<le> wedge_count s - 1 \<and>
                hover_idx (main_loop s1 evs) \<noteq> - 1))"
  proof -
    have one: "0 \<le> hover_idx ?s1 \<and> hover_idx ?s1 \<le> wedge_count s - 1"
      using r1 unfolding hover_in_range_def w by simp
    have ne: "sector_index_from_point (wedge_count s) (app_width s) (app_height s)
                (sint ex) (sint ey) \<noteq> - 1"
      using b by linarith
    show ?thesis unfolding Let_def using ne one all by blast
  qed
qed

theorem hover_stays_in_range_witness:
  "running demo_session \<noteq> 0 \<and> 1 \<le> wedge_count demo_session \<and>
   0 \<le> hover_idx (main_loop (main_loop demo_session [MotionNotify (- 30) 700])
                    [Expose, MotionNotify 150 150, ButtonPress 1 0 0, ConfigureNotify 640 480]) \<and>
   hover_idx (main_loop (main_loop demo_session [MotionNotify (- 30) 700])
                [Expose, MotionNotify 150 150, ButtonPress 1 0 0, ConfigureNotify 640 480])
     \<le> wedge_count demo_session - 1"
proof -
  have a: "running demo_session \<noteq> 0 \<and> 1 \<le> wedge_count demo_session"
    by (simp add: demo_defs)
  show ?thesis
    using a hover_stays_in_range [of demo_session "- 30" 700] unfolding Let_def by blast
qed

text \<open>
  Claim C6. Once the session is selected or cancelled, the loop handles no further
  event: whatever events are still queued, a buffered button release included, the
  whole state stays as it is, so the phase, the exit code, the output and the frames
  painted no longer change.
\<close>

theorem terminal_absorbing:
  "(phase_of s \<noteq> Running \<longrightarrow> main_loop s evs = s) \<and>
   (phase_of (main_loop s evs1) \<noteq> Running \<longrightarrow>
      main_loop s (evs1 @ evs2) = main_loop s evs1)"
proof -
  have a: "main_loop t evs = t" if "phase_of t \<noteq> Running" for t evs
    using that by (simp add: phase_of_Running main_loop_not_running)
  show ?thesis using a by (simp add: main_loop_append)
qed

theorem terminal_absorbing_witness:
  "phase_of (main_loop demo_session [KeyPress 9]) = Cancelled \<and>
   phase_of (main_loop demo_session [KeyPress 9]) \<noteq> Running \<and>
   main_loop demo_session ([KeyPress 9] @ [ButtonRelease 1 250 150, Expose]) =
     main_loop demo_session [KeyPress 9] \<and>
   main_loop (main_loop demo_session [KeyPress 9]) [ButtonRelease 1 250 150, Expose] =
     main_loop demo_session [KeyPress 9]"
proof -
  have c: "phase_of (main_loop demo_session [KeyPress 9]) = Cancelled"
    by (simp add: demo_defs)
  then have n: "phase_of (main_loop demo_session [KeyPress 9]) \<noteq> Running" by simp
  show ?thesis
    using c n
      terminal_absorbing [of "main_loop demo_session [KeyPress 9]" "[ButtonRelease 1 250 150, Expose]"
         "[]" "[]"]
      terminal_absorbing [of demo_session "[]" "[KeyPress 9]" "[ButtonRelease 1 250 150, Expose]"]
    by blast
qed

text \<open>
  Claim C5. In a running session a cancelling event (escape, \<open>q\<close>, \<open>Q\<close>, or the request
  to close the window) sets \<open>running\<close> to 0 and the exit code to 1 and changes nothing
  else; the loop then ends, whatever events follow, in phase cancelled, and nothing is
  written. From the start of \<^verbatim>\<open>main\<close>'s loop: a run that a cancelling event ends
  returns 1 with standard output empty, and any run that returns a non-zero exit code
  has written nothing.
\<close>

theorem cancel_exits_nonzero:
  "(running s \<noteq> 0 \<and> cancel_event s ev \<longrightarrow>
      main_loop s (ev # evs) = s\<lparr>exit_code := 1, running := 0\<rparr> \<and>
      phase_of (main_loop s (ev # evs)) = Cancelled \<and>
      exit_code (main_loop s (ev # evs)) \<noteq> 0 \<and>
      stdout (main_loop s (ev # evs)) = stdout s) \<and>
   (s = main_loop (init_session W H p d ks es) pre \<and> running s \<noteq> 0 \<and> cancel_event s ev \<longrightarrow>
      exit_code (main_loop (init_session W H p d ks es) (pre @ ev # evs)) = 1 \<and>
      stdout (main_loop (init_session W H p d ks es) (pre @ ev # evs)) = []) \<and>
   (exit_code (main_loop (init_session W H p d ks es) evs) \<noteq> 0 \<longrightarrow>
      stdout (main_loop (init_session W H p d ks es) evs) = [])"
proof -
  have step: "main_loop s (ev # evs) = s\<lparr>exit_code := 1, running := 0\<rparr>"
    if "running s \<noteq> 0" "cancel_event s ev" for s ev evs
    using that by (simp add: cancel_event_handle main_loop_not_running)
  have q: "quiet_unless_selected (main_loop (init_session W H p d ks es) l)" for l
    by (rule quiet_main_loop) (rule quiet_init)
  have one: "running s \<noteq> 0 \<and> cancel_event s ev \<longrightarrow>
      main_loop s (ev # evs) = s\<lparr>exit_code := 1, running := 0\<rparr> \<and>
      phase_of (main_loop s (ev # evs)) = Cancelled \<and>
      exit_code (main_loop s (ev # evs)) \<noteq> 0 \<and>
      stdout (main_loop s (ev # evs)) = stdout s"
    using step [of s ev evs] by (auto simp add: phase_of_def simp del: main_loop.simps)
  have two: "exit_code (main_loop (init_session W H p d ks es) (pre @ ev # evs)) = 1 \<and>
      stdout (main_loop (init_session W H p d ks es) (pre @ ev # evs)) = []"
    if h: "s = main_loop (init_session W H p d ks es) pre" "running s \<noteq> 0" "cancel_event s ev"
  proof -
    have e: "main_loop (init_session W H p d ks es) (pre @ ev # evs) = s\<lparr>exit_code := 1, running := 0\<rparr>"
      using h step [of s ev evs] by (simp add: main_loop_append del: main_loop.simps)
    have "stdout s = []" using q [of pre] h by (simp add: quiet_unless_selected_def)
    then show ?thesis unfolding e by simp
  qed
  have three: "exit_code (main_loop (init_session W H p d ks es) evs) \<noteq> 0 \<longrightarrow>
      stdout (main_loop (init_session W H p d ks es) evs) = []"
    using q [of evs] by (auto simp add: quiet_unless_selected_def)
  show ?thesis using one two three by blast
qed

theorem cancel_exits_nonzero_witness:
  "running demo_session \<noteq> 0 \<and> cancel_event demo_session (KeyPress 9) \<and>
   cancel_event demo_session (KeyPress 24) \<and> cancel_event demo_session (ClientMessage 300 301) \<and>
   exit_code (main_loop demo_session [KeyPress 24, ButtonRelease 1 250 150]) \<noteq> 0 \<and>
   phase_of (main_loop demo_session [KeyPress 24, ButtonRelease 1 250 150]) = Cancelled \<and>
   stdout (main_loop demo_session [KeyPress 24, ButtonRelease 1 250 150]) = [] \<and>
   phase_of (main_loop demo_session [ClientMessage 300 301]) = Cancelled"
proof -
  have a: "running demo_session \<noteq> 0" "cancel_event demo_session (KeyPress 9)"
   "cancel_event demo_session (KeyPress 24)" "cancel_event demo_session (ClientMessage 300 301)"
   "stdout demo_session = []"
    by (simp_all add: cancel_event_def demo_defs)
  show ?thesis
    using a cancel_exits_nonzero [of demo_session "KeyPress 24" "[ButtonRelease 1 250 150]"]
      cancel_exits_nonzero [of demo_session "ClientMessage 300 301" "[]"]
    by metis
qed

end
